theory Spec2Isabelle
  imports Main
begin

section \<open>aiohttp-sse-client: the EventSource of aiohttp\_sse\_client.py\<close>

text \<open>
  A shallow embedding of \<^verbatim>\<open>aiohttp_sse_client/aiohttp_sse_client.py\<close>. A \<^verbatim>\<open>bytes\<close>
  value is the list of its bytes. A \<^verbatim>\<open>str\<close> is kept as the bytes of its UTF-8 encoding:
  an ASCII byte is never part of the encoding of another character, so stripping,
  splitting at and comparing with ASCII characters, which is all the module does with a
  \<^verbatim>\<open>str\<close>, act on the encoding as they act on the text. \<^verbatim>\<open>None\<close> is \<open>None\<close> of an option
  type, an exception is the left summand of a sum, the attributes of \<^verbatim>\<open>self\<close> are the
  fields of a record that every method takes and returns, and the collaborators (the
  aiohttp session, the response and its stream reader) are data: the session is the list
  of the requests made on it, the stream reader the part of the body not yet read.
\<close>

subsection \<open>Python built-ins used by the module\<close>

datatype error =
  ValueError | KeyError | TypeError | IndexError | OverflowError | UnicodeDecodeError | ClientError

definition LF :: char where
  "LF = CHR 0x0A"

definition CR :: char where
  "CR = CHR 0x0D"

text \<open>\<^verbatim>\<open>s.rstrip(c)\<close> and \<^verbatim>\<open>s.lstrip(c)\<close> for a one-character argument: every
  trailing (leading) occurrence of the character goes, however many there are.\<close>

definition rstrip :: "char \<Rightarrow> string \<Rightarrow> string" where
  "rstrip c s = rev (dropWhile (\<lambda>x. x = c) (rev s))"

definition lstrip :: "char \<Rightarrow> string \<Rightarrow> string" where
  "lstrip c s = dropWhile (\<lambda>x. x = c) s"

text \<open>\<^verbatim>\<open>s.split(c, 1)\<close>: at most one split, at the first occurrence of the separator.\<close>

definition split1 :: "char \<Rightarrow> string \<Rightarrow> string list" where
  "split1 c s =
     (if c \<in> set s then [takeWhile (\<lambda>x. x \<noteq> c) s, tl (dropWhile (\<lambda>x. x \<noteq> c) s)] else [s])"

text \<open>
  \<^verbatim>\<open>b.decode('utf8')\<close>: the text, when the bytes are well-formed UTF-8 (no overlong form,
  no surrogate, nothing above U+10FFFF), and UnicodeDecodeError otherwise.
\<close>

definition byte_in :: "nat \<Rightarrow> nat \<Rightarrow> char \<Rightarrow> bool" where
  "byte_in lo hi b = (lo \<le> (of_char b :: nat) \<and> (of_char b :: nat) \<le> hi)"

fun valid_utf8 :: "string \<Rightarrow> bool" where
  "valid_utf8 [] = True"
| "valid_utf8 (a # r) =
     (if byte_in 0 127 a then valid_utf8 r
      else if byte_in 194 223 a then
        (case r of
           b # r1 \<Rightarrow> byte_in 128 191 b \<and> valid_utf8 r1
         | _ \<Rightarrow> False)
      else if byte_in 224 239 a then
        (case r of
           b # c # r2 \<Rightarrow>
             byte_in (if a = CHR 0xE0 then 160 else 128) (if a = CHR 0xED then 159 else 191) b
             \<and> byte_in 128 191 c \<and> valid_utf8 r2
         | _ \<Rightarrow> False)
      else if byte_in 240 244 a then
        (case r of
           b # c # d # r3 \<Rightarrow>
             byte_in (if a = CHR 0xF0 then 144 else 128) (if a = CHR 0xF4 then 143 else 191) b
             \<and> byte_in 128 191 c \<and> byte_in 128 191 d \<and> valid_utf8 r3
         | _ \<Rightarrow> False)
      else False)"

definition decode_utf8 :: "string \<Rightarrow> error + string" where
  "decode_utf8 b = (if valid_utf8 b then Inr b else Inl UnicodeDecodeError)"

text \<open>
  \<^verbatim>\<open>int(s)\<close> on a string, base 10: whitespace on both sides is skipped, one sign is
  allowed, then come decimal digits, where single underscores may stand between two digits;
  more than 4300 digits (the default limit of the interpreters from 3.11 on) or anything
  else is a ValueError. The whitespace and the digits are the ASCII ones. (For a string
  with characters beyond ASCII, \<^verbatim>\<open>int\<close> also takes the spaces and decimal digits of the
  other scripts of Unicode; here every such string is a ValueError.)
\<close>

definition py_isspace :: "char \<Rightarrow> bool" where
  "py_isspace c = ((of_char c :: nat) \<in> set [9, 10, 11, 12, 13, 32])"

definition py_isdigit :: "char \<Rightarrow> bool" where
  "py_isdigit c = (48 \<le> (of_char c :: nat) \<and> (of_char c :: nat) \<le> 57)"

definition digit_or_underscore :: "char \<Rightarrow> bool" where
  "digit_or_underscore c = (py_isdigit c \<or> c = CHR ''_'')"

fun underscores_ok :: "string \<Rightarrow> bool" where
  "underscores_ok [] = True"
| "underscores_ok [c] = (c \<noteq> CHR ''_'')"
| "underscores_ok (c # d # r) =
     (\<not> (c = CHR ''_'' \<and> d = CHR ''_'') \<and> underscores_ok (d # r))"

definition digits_value :: "string \<Rightarrow> int" where
  "digits_value ds = foldl (\<lambda>acc c. 10 * acc + (int (of_char c) - 48)) 0 ds"

definition py_int :: "string \<Rightarrow> error + int" where
  "py_int s =
     (let t = dropWhile py_isspace s;
          neg = (t \<noteq> [] \<and> hd t = CHR ''-'');
          u = (if t \<noteq> [] \<and> hd t \<in> set ''-+'' then tl t else t);
          body = takeWhile digit_or_underscore u;
          rest = dropWhile digit_or_underscore u
      in if body \<noteq> [] \<and> hd body \<noteq> CHR ''_'' \<and> underscores_ok body
            \<and> length (filter py_isdigit body) \<le> 4300 \<and> list_all py_isspace rest
         then Inr ((if neg then - 1 else 1) * digits_value (filter py_isdigit body))
         else Inl ValueError)"

text \<open>
  A \<^verbatim>\<open>timedelta\<close> is its length in microseconds. \<^verbatim>\<open>timedelta(milliseconds=n)\<close>
  raises OverflowError outside \<^verbatim>\<open>timedelta.min\<close> .. \<^verbatim>\<open>timedelta.max\<close>, that is
  when the number of days leaves \<open>-999999999 .. 999999999\<close>.
\<close>

type_synonym timedelta = int

definition timedelta_min :: timedelta where
  "timedelta_min = - 999999999 * 86400000000"

definition timedelta_max :: timedelta where
  "timedelta_max = 999999999 * 86400000000 + 86399999999"

definition timedelta_milliseconds :: "int \<Rightarrow> error + timedelta" where
  "timedelta_milliseconds n =
     (if timedelta_min \<le> n * 1000 \<and> n * 1000 \<le> timedelta_max then Inr (n * 1000)
      else Inl OverflowError)"

definition timedelta_seconds :: "int \<Rightarrow> timedelta" where
  "timedelta_seconds n = n * 1000000"

text \<open>\<^verbatim>\<open>d[k] = v\<close> on a dict or a MultiDict, kept as the list of its items in order: the
  first item of that key takes the value and any further item of the key goes; a new key
  is appended.\<close>

fun setitem :: "'k \<Rightarrow> 'v \<Rightarrow> ('k \<times> 'v) list \<Rightarrow> ('k \<times> 'v) list" where
  "setitem k v [] = [(k, v)]"
| "setitem k v (p # r) =
     (if fst p = k then (k, v) # filter (\<lambda>q. fst q \<noteq> k) r else p # setitem k v r)"

subsection \<open>Constants of the module\<close>

definition READY_STATE_CONNECTING :: nat where
  "READY_STATE_CONNECTING = 0"

definition READY_STATE_OPEN :: nat where
  "READY_STATE_OPEN = 1"

definition READY_STATE_CLOSED :: nat where
  "READY_STATE_CLOSED = 2"

definition DEFAULT_RECONNECTION_TIME :: timedelta where
  "DEFAULT_RECONNECTION_TIME = timedelta_seconds 5"

definition CONTENT_TYPE_EVENT_STREAM :: string where
  "CONTENT_TYPE_EVENT_STREAM = ''text/event-stream''"

text \<open>\<^verbatim>\<open>hdrs.ACCEPT\<close> and \<^verbatim>\<open>hdrs.CACHE_CONTROL\<close> of aiohttp.\<close>

definition ACCEPT :: string where
  "ACCEPT = ''Accept''"

definition CACHE_CONTROL :: string where
  "CACHE_CONTROL = ''Cache-Control''"

subsection \<open>MessageEvent and the state of an EventSource\<close>

record MessageEvent =
  type :: "string option"
  message :: string
  data :: string
  origin :: "string option"
  last_event_id :: string

type_synonym headers = "(string \<times> string) list"

text \<open>A keyword argument passed on to \<^verbatim>\<open>session.get\<close>: a mapping of headers, or
  any other value.\<close>

datatype kwarg = Headers headers | Other string

type_synonym kwargs = "(string \<times> kwarg) list"

text \<open>The session: the calls of \<^verbatim>\<open>get\<close> made on it so far, and whether it is closed.\<close>

record ClientSession =
  gets :: "(string \<times> kwargs) list"
  closed :: bool

text \<open>A response: its status, the origin of its \<^verbatim>\<open>real_url\<close>, and the part of the body
  that the stream reader \<^verbatim>\<open>content\<close> has not yet handed out.\<close>

record ClientResponse =
  status :: int
  real_url_origin :: string
  content :: string

record EventSource =
  self_url :: string
  self_with_credentials :: bool
  self_ready_state :: nat
  self_session :: ClientSession
  self_need_close_session :: bool
  self_reconnection_time :: timedelta
  self_last_event_id :: string
  self_kwargs :: kwargs
  self_event_id :: string
  self_event_type :: string
  self_event_data :: string
  self_origin :: "string option"
  self_response :: "ClientResponse option"

subsection \<open>The methods\<close>

text \<open>\<^verbatim>\<open>__init__\<close>. The \<^verbatim>\<open>option\<close> dict is given by the value under its one key
  \<^verbatim>\<open>with_credentials\<close>, if it has one.\<close>

definition init ::
  "string \<Rightarrow> bool option option \<Rightarrow> timedelta \<Rightarrow> ClientSession option \<Rightarrow> kwargs \<Rightarrow> EventSource" where
  "init url opt reconnection_time session kw =
     \<lparr> self_url = url,
       self_with_credentials =
         (case opt of None \<Rightarrow> False | Some None \<Rightarrow> False | Some (Some b) \<Rightarrow> b),
       self_ready_state = READY_STATE_CONNECTING,
       self_session = (case session of Some x \<Rightarrow> x | None \<Rightarrow> \<lparr> gets = [], closed = False \<rparr>),
       self_need_close_session = (case session of Some x \<Rightarrow> False | None \<Rightarrow> True),
       self_reconnection_time = reconnection_time,
       self_last_event_id = [],
       self_kwargs = (if kw = [] then [(''headers'', Headers [])] else kw),
       self_event_id = [],
       self_event_type = [],
       self_event_data = [],
       self_origin = None,
       self_response = None \<rparr>"

text \<open>\<^verbatim>\<open>_connected\<close>.\<close>

definition connected :: "EventSource \<Rightarrow> EventSource" where
  "connected s =
     (if self_ready_state s \<noteq> READY_STATE_CLOSED then s\<lparr>self_ready_state := READY_STATE_OPEN\<rparr>
      else s)"

text \<open>\<^verbatim>\<open>_connect\<close>. The first argument is what \<^verbatim>\<open>session.get\<close> answers: a response, or
  the exception it raises. The headers object is the one stored under
  \<^verbatim>\<open>self._kwargs['headers']\<close>, so the three assignments stay in \<^verbatim>\<open>self._kwargs\<close>.\<close>

definition connect :: "error + ClientResponse \<Rightarrow> EventSource \<Rightarrow> (error + unit) \<times> EventSource" where
  "connect answer s =
     (case map_of (self_kwargs s) ''headers'' of
        None \<Rightarrow> (Inl KeyError, s)
      | Some (Other x) \<Rightarrow> (Inl TypeError, s)
      | Some (Headers h) \<Rightarrow>
          (let h1 = setitem ACCEPT CONTENT_TYPE_EVENT_STREAM h;
               h2 = setitem ''Last-Event_ID'' (self_last_event_id s) h1;
               h3 = setitem CACHE_CONTROL ''no-cache'' h2;
               kw = setitem ''headers'' (Headers h3) (self_kwargs s);
               sess = self_session s;
               s1 = s\<lparr>self_kwargs := kw,
                      self_session := sess\<lparr>gets := gets sess @ [(self_url s, kw)]\<rparr>\<rparr>
           in case answer of
                Inl e \<Rightarrow> (Inl e, s1)
              | Inr response \<Rightarrow>
                  if status response \<ge> 400 then (Inr (), s1)
                  else (Inr (), (connected s1)\<lparr>self_response := Some response,
                                               self_origin := Some (real_url_origin response)\<rparr>)))"

text \<open>\<^verbatim>\<open>__aenter__\<close>.\<close>

definition aenter :: "error + ClientResponse \<Rightarrow> EventSource \<Rightarrow> (error + unit) \<times> EventSource" where
  "aenter answer s = connect answer s"

text \<open>\<^verbatim>\<open>_dispatch_event\<close>: the event returned (\<open>None\<close> for the bare \<^verbatim>\<open>return\<close>)
  and the state after it.\<close>

definition dispatch_event :: "EventSource \<Rightarrow> MessageEvent option \<times> EventSource" where
  "dispatch_event s =
     (let s1 = s\<lparr>self_last_event_id := self_event_id s\<rparr>
      in if self_event_data s1 = [] then (None, s1\<lparr>self_event_type := []\<rparr>)
         else
           (let s2 = s1\<lparr>self_event_data := rstrip LF (self_event_data s1)\<rparr>;
                m = \<lparr> type = (if self_event_type s2 \<noteq> [] then Some (self_event_type s2) else None),
                      message = self_event_type s2,
                      data = self_event_data s2,
                      origin = self_origin s2,
                      last_event_id = self_last_event_id s2 \<rparr>
            in (Some m, s2\<lparr>self_event_type := [], self_event_data := []\<rparr>)))"

text \<open>\<^verbatim>\<open>_process_field\<close>. An exception leaves the state as it was: both \<^verbatim>\<open>int\<close> and
  \<^verbatim>\<open>timedelta\<close> come before the assignment, and only ValueError is caught.\<close>

definition process_field :: "string \<Rightarrow> string \<Rightarrow> EventSource \<Rightarrow> error + EventSource" where
  "process_field field_name field_value s =
     (if field_name = ''event'' then Inr (s\<lparr>self_event_type := field_value\<rparr>)
      else if field_name = ''data'' then
        Inr (s\<lparr>self_event_data := self_event_data s @ field_value @ [LF]\<rparr>)
      else if field_name = ''id'' then Inr (s\<lparr>self_event_id := field_value\<rparr>)
      else if field_name = ''retry'' then
        (case py_int field_value of
           Inl e \<Rightarrow> (if e = ValueError then Inr s else Inl e)
         | Inr retry_in_ms \<Rightarrow>
             (case timedelta_milliseconds retry_in_ms of
                Inl e \<Rightarrow> (if e = ValueError then Inr s else Inl e)
              | Inr t \<Rightarrow> Inr (s\<lparr>self_reconnection_time := t\<rparr>)))
      else Inr s)"

text \<open>
  The stream reader. \<^verbatim>\<open>readline\<close> hands out the bytes up to and including the first LF,
  or all that is left when there is none, and keeps the rest; \<^verbatim>\<open>async for\<close> over the
  reader calls it until it hands out nothing.
\<close>

fun readline :: "string \<Rightarrow> string \<times> string" where
  "readline [] = ([], [])"
| "readline (c # cs) =
     (if c = LF then ([c], cs) else (c # fst (readline cs), snd (readline cs)))"

function iter_lines :: "string \<Rightarrow> string list" where
  "iter_lines [] = []"
| "iter_lines (c # cs) = fst (readline (c # cs)) # iter_lines (snd (readline (c # cs)))"
  by pat_completeness auto
termination
proof (relation "measure length")
  have shorter: "length (snd (readline xs)) \<le> length xs" for xs
    by (induction xs) auto
  fix c cs
  show "(snd (readline (c # cs)), c # cs) \<in> measure length"
    using shorter [of cs] by simp
qed simp

text \<open>The line of \<^verbatim>\<open>__anext__\<close>: the bytes decoded, then the two \<^verbatim>\<open>rstrip\<close> calls.\<close>

definition strip_line :: "string \<Rightarrow> error + string" where
  "strip_line line_in_bytes =
     (case decode_utf8 line_in_bytes of
        Inl e \<Rightarrow> Inl e
      | Inr line \<Rightarrow> Inr (rstrip CR (rstrip LF line)))"

text \<open>
  The loop of \<^verbatim>\<open>__anext__\<close> over the lines that the reader hands out. It gives what
  \<^verbatim>\<open>__anext__\<close> returns or raises, the lines not yet read and the state. \<open>Inr None\<close> is the
  end of the loop: the function body ends and Python returns \<^verbatim>\<open>None\<close>. A line that
  does not decode raises when the loop comes to it.
\<close>

fun process_lines ::
  "string list \<Rightarrow> EventSource \<Rightarrow> (error + MessageEvent option) \<times> string list \<times> EventSource" where
  "process_lines [] s = (Inr None, [], s)"
| "process_lines (line_in_bytes # rest) s =
     (case strip_line line_in_bytes of
        Inl e \<Rightarrow> (Inl e, rest, s)
      | Inr line \<Rightarrow>
          if line = [] then
            (case dispatch_event s of
               (Some event, s') \<Rightarrow> (Inr (Some event), rest, s')
             | (None, s') \<Rightarrow> process_lines rest s')
          else if hd line = CHR '':'' then process_lines rest s
          else if CHR '':'' \<in> set line then
            (case split1 (CHR '':'') line of
               [field_name, after] \<Rightarrow>
                 (case process_field field_name (lstrip (CHR '' '') after) s of
                    Inl e \<Rightarrow> (Inl e, rest, s)
                  | Inr s' \<Rightarrow> process_lines rest s')
             | _ \<Rightarrow> (Inl IndexError, rest, s))
          else
            (case process_field line [] s of
               Inl e \<Rightarrow> (Inl e, rest, s)
             | Inr s' \<Rightarrow> process_lines rest s'))"

text \<open>\<^verbatim>\<open>__anext__\<close>. What the loop has not read stays in the reader of the response.\<close>

definition anext :: "EventSource \<Rightarrow> (error + MessageEvent option) \<times> EventSource" where
  "anext s =
     (case self_response s of
        None \<Rightarrow> (Inl ValueError, s)
      | Some response \<Rightarrow>
          (case process_lines (iter_lines (content response)) s of
             (r, rest, s') \<Rightarrow>
               (r, s'\<lparr>self_response := Some (response\<lparr>content := concat rest\<rparr>)\<rparr>)))"

text \<open>\<^verbatim>\<open>__aexit__\<close>.\<close>

definition aexit :: "EventSource \<Rightarrow> EventSource" where
  "aexit s =
     (if self_need_close_session s
      then s\<lparr>self_session := (self_session s)\<lparr>closed := True\<rparr>\<rparr>
      else s)"

section \<open>Properties\<close>

subsection \<open>Dispatch\<close>

text \<open>What a dispatch returns, and the state it leaves.\<close>

lemma snd_dispatch_event:
  "snd (dispatch_event s) =
     s\<lparr>self_last_event_id := self_event_id s, self_event_type := [], self_event_data := []\<rparr>"
  by (cases s) (simp add: dispatch_event_def Let_def)

lemma fst_dispatch_event:
  "fst (dispatch_event s) =
     (if self_event_data s = [] then None
      else Some \<lparr> type = (if self_event_type s \<noteq> [] then Some (self_event_type s) else None),
                  message = self_event_type s,
                  data = rstrip LF (self_event_data s),
                  origin = self_origin s,
                  last_event_id = self_event_id s \<rparr>)"
  by (simp add: dispatch_event_def Let_def)

lemma process_field_keeps_event_id:
  assumes "field_name \<noteq> ''id''" and "process_field field_name field_value s = Inr s'"
  shows "self_event_id s' = self_event_id s"
proof (cases "field_name = ''retry''")
  case True
  then show ?thesis
    using assms(2) by (auto simp: process_field_def split: sum.splits if_splits)
next
  case False
  then show ?thesis
    using assms by (auto simp: process_field_def split: if_splits)
qed

text \<open>
  C10. An event that is returned has type \<^verbatim>\<open>None\<close> exactly when the type buffer was empty
  at the dispatch, never the empty string, and its message field is the type buffer as it
  was; so its type is the string \<^verbatim>\<open>message\<close> only when the stream named it so.
\<close>

theorem dispatch_event_type_and_message:
  "fst (dispatch_event s) = Some ev \<Longrightarrow>
     (type ev = None \<longleftrightarrow> self_event_type s = []) \<and>
     type ev \<noteq> Some [] \<and>
     message ev = self_event_type s \<and>
     (type ev = Some ''message'' \<longleftrightarrow> self_event_type s = ''message'')"
  by (auto simp: fst_dispatch_event split: if_splits)

theorem dispatch_event_type_and_message_witness:
  "fst (dispatch_event ((init ''http://h/e'' None 5000000 None [])\<lparr>self_event_data := ''a'' @ [LF]\<rparr>))
     = Some \<lparr>type = None, message = [], data = ''a'', origin = None, last_event_id = []\<rparr> \<and>
   (type \<lparr>type = None, message = [], data = ''a'', origin = None, last_event_id = []\<rparr> = None
      \<longleftrightarrow> self_event_type ((init ''http://h/e'' None 5000000 None [])
            \<lparr>self_event_data := ''a'' @ [LF]\<rparr>) = [])"
proof -
  have h: "fst (dispatch_event ((init ''http://h/e'' None 5000000 None [])
             \<lparr>self_event_data := ''a'' @ [LF]\<rparr>))
     = Some \<lparr>type = None, message = [], data = ''a'', origin = None, last_event_id = []\<rparr>"
    by (simp add: fst_dispatch_event init_def rstrip_def LF_def)
  show ?thesis using h dispatch_event_type_and_message [OF h] by simp
qed

text \<open>
  C3 (the code strips every trailing newline). On the stream
  \<^verbatim>\<open>data: a\ndata:\n\n\<close> the event carries \<^verbatim>\<open>a\<close>: the data buffer is \<^verbatim>\<open>a\n\n\<close> at
  the dispatch, and removing one newline from it leaves \<^verbatim>\<open>a\n\<close>.
\<close>

theorem dispatch_event_strips_all_trailing_newlines:
  "fst (anext (snd (connect
      (Inr \<lparr>status = 200, real_url_origin = ''http://h'',
             content = ''data: a'' @ [LF] @ ''data:'' @ [LF, LF]\<rparr>)
      (init ''http://h/e'' None 5000000 None []))))
   = Inr (Some \<lparr>type = None, message = [], data = ''a'', origin = Some ''http://h'',
                 last_event_id = []\<rparr>) \<and>
   map_option data (fst (dispatch_event ((init ''http://h/e'' None 5000000 None [])
       \<lparr>self_event_data := ''a'' @ [LF, LF]\<rparr>))) = Some ''a'' \<and>
   butlast (''a'' @ [LF, LF]) = ''a'' @ [LF]"
proof -
  have "fst (anext (snd (connect
      (Inr \<lparr>status = 200, real_url_origin = ''http://h'',
             content = ''data: a'' @ [LF] @ ''data:'' @ [LF, LF]\<rparr>)
      (init ''http://h/e'' None 5000000 None []))))
   = Inr (Some \<lparr>type = None, message = [], data = ''a'', origin = Some ''http://h'',
                 last_event_id = []\<rparr>)"
    by code_simp
  then show ?thesis
    by (simp add: fst_dispatch_event init_def rstrip_def LF_def)
qed

subsection \<open>Connecting\<close>

text \<open>
  C9. When keyword arguments are given and none of them is \<^verbatim>\<open>headers\<close>, they are kept as
  they are, and every connect (and so entering the context manager) raises KeyError and
  leaves the state, with the requests made on the session, as it was; the default headers
  are there only when no keyword argument is given.
\<close>

theorem connect_without_headers_raises_KeyError:
  assumes "kw \<noteq> []" and "''headers'' \<notin> fst ` set kw"
  shows "self_kwargs (init url opt rt session kw) = kw \<and>
         connect answer (init url opt rt session kw) = (Inl KeyError, init url opt rt session kw) \<and>
         aenter answer (init url opt rt session kw) = (Inl KeyError, init url opt rt session kw) \<and>
         (self_kwargs s = kw \<longrightarrow> connect answer s = (Inl KeyError, s)) \<and>
         self_kwargs (init url opt rt session []) = [(''headers'', Headers [])]"
proof -
  have "map_of kw ''headers'' = None"
    using assms(2) by (simp add: map_of_eq_None_iff)
  then show ?thesis
    using assms(1) by (simp add: connect_def aenter_def init_def)
qed

theorem connect_without_headers_raises_KeyError_witness:
  "[(''timeout'', Other ''3'')] \<noteq> [] \<and>
   ''headers'' \<notin> fst ` set [(''timeout'', Other ''3'')] \<and>
   connect (Inr \<lparr>status = 200, real_url_origin = ''http://h'', content = []\<rparr>)
     (init ''http://h/e'' None 5000000 None [(''timeout'', Other ''3'')])
     = (Inl KeyError, init ''http://h/e'' None 5000000 None [(''timeout'', Other ''3'')]) \<and>
   gets (self_session (init ''http://h/e'' None 5000000 None [(''timeout'', Other ''3'')])) = []"
proof -
  have h1: "[(''timeout'', Other ''3'')] \<noteq> []" by simp
  have h2: "''headers'' \<notin> fst ` set [(''timeout'', Other ''3'')]" by simp
  show ?thesis
    using h1 h2 connect_without_headers_raises_KeyError [OF h1 h2]
    by (simp add: init_def)
qed

text \<open>
  C5 (the code sends the id always, under a misspelt name). A first connect of a new
  EventSource, an event with id 42, and a second connect: the keyword arguments of the two
  requests. Both carry \<^verbatim>\<open>Last-Event_ID\<close>, the first with the empty string, and neither
  carries \<^verbatim>\<open>Last-Event-ID\<close>.
\<close>

theorem connect_sends_misspelled_last_event_id:
  "map snd (gets (self_session (snd (connect
      (Inr \<lparr>status = 200, real_url_origin = ''http://h'', content = []\<rparr>)
      (snd (anext (snd (connect
         (Inr \<lparr>status = 200, real_url_origin = ''http://h'',
                content = ''id: 42'' @ [LF] @ ''data: x'' @ [LF, LF]\<rparr>)
         (init ''http://h/e'' None 5000000 None [])))))))))
   = [[(''headers'', Headers [(''Accept'', ''text/event-stream''), (''Last-Event_ID'', []),
                              (''Cache-Control'', ''no-cache'')])],
      [(''headers'', Headers [(''Accept'', ''text/event-stream''), (''Last-Event_ID'', ''42''),
                              (''Cache-Control'', ''no-cache'')])]]"
  by code_simp

subsection \<open>The lines of the stream\<close>

text \<open>A line without LF, followed by LF, is handed out as one line; when it is well-formed
  UTF-8 it decodes, and stripping it removes the LF and every CR before it.\<close>

lemma readline_line:
  "LF \<notin> set l \<Longrightarrow> readline (l @ LF # rest) = (l @ [LF], rest)"
  by (induction l) auto

lemma iter_lines_line:
  assumes "LF \<notin> set l"
  shows "iter_lines (l @ LF # rest) = (l @ [LF]) # iter_lines rest"
proof -
  obtain c cs where cs: "l @ LF # rest = c # cs"
    by (cases "l @ LF # rest") auto
  have "iter_lines (c # cs) = fst (readline (c # cs)) # iter_lines (snd (readline (c # cs)))"
    by simp
  then show ?thesis
    using readline_line [OF assms, of rest] by (simp add: cs [symmetric] del: iter_lines.simps)
qed

lemma rstrip_no_trailing:
  "c \<notin> set l \<Longrightarrow> rstrip c (l @ [c]) = l"
  by (cases "rev l") (auto simp: rstrip_def)

lemma valid_utf8_append:
  "valid_utf8 xs \<Longrightarrow> valid_utf8 ys \<Longrightarrow> valid_utf8 (xs @ ys)"
proof (induction xs rule: valid_utf8.induct)
  case 1
  then show ?case by simp
next
  case (2 a r)
  show ?case
  proof (cases "byte_in 0 127 a")
    case True
    with 2 show ?thesis by simp
  next
    case n1: False
    show ?thesis
    proof (cases "byte_in 194 223 a")
      case True
      with n1 "2.prems" obtain b r1 where r: "r = b # r1" "byte_in 128 191 b" "valid_utf8 r1"
        by (auto split: list.splits)
      with "2.IH"(2) [OF n1 True r(1)] "2.prems" have "valid_utf8 (r1 @ ys)" by simp
      with n1 True r show ?thesis by simp
    next
      case n2: False
      show ?thesis
      proof (cases "byte_in 224 239 a")
        case True
        with n1 n2 "2.prems" obtain b c r2 where r: "r = b # c # r2"
          "byte_in (if a = CHR 0xE0 then 160 else 128) (if a = CHR 0xED then 159 else 191) b"
          "byte_in 128 191 c" "valid_utf8 r2"
          by (auto split: list.splits)
        with "2.IH"(3) [OF n1 n2 True r(1)] "2.prems" have "valid_utf8 (r2 @ ys)" by simp
        with n1 n2 True r show ?thesis by simp
      next
        case n3: False
        show ?thesis
        proof (cases "byte_in 240 244 a")
          case True
          with n1 n2 n3 "2.prems" obtain b c d r3 where r: "r = b # c # d # r3"
            "byte_in (if a = CHR 0xF0 then 144 else 128) (if a = CHR 0xF4 then 143 else 191) b"
            "byte_in 128 191 c" "byte_in 128 191 d" "valid_utf8 r3"
            by (auto split: list.splits)
          with "2.IH"(4) [OF n1 n2 n3 True r(1)] "2.prems" have "valid_utf8 (r3 @ ys)" by simp
          with n1 n2 n3 True r show ?thesis by simp
        next
          case False
          with n1 n2 n3 "2.prems" show ?thesis by simp
        qed
      qed
    qed
  qed
qed

lemma strip_line_line:
  assumes "LF \<notin> set l" and "valid_utf8 l"
  shows "strip_line (l @ [LF]) = Inr (rstrip CR l)"
proof -
  have "valid_utf8 [LF]" by (simp add: LF_def byte_in_def)
  with assms(2) have "valid_utf8 (l @ [LF])" by (rule valid_utf8_append)
  then show ?thesis
    using assms(1) by (simp add: strip_line_def decode_utf8_def rstrip_no_trailing)
qed

lemma strip_line_not_utf8:
  "\<not> valid_utf8 line_in_bytes \<Longrightarrow> strip_line line_in_bytes = Inl UnicodeDecodeError"
  by (simp add: strip_line_def decode_utf8_def)

text \<open>
  C8 (counterexample). In the stream \<^verbatim>\<open>a\rb\n\<close> the CR does not end a line: the loop sees
  the one line \<^verbatim>\<open>a\rb\<close>, not the two lines \<^verbatim>\<open>a\<close> and \<^verbatim>\<open>b\<close>.
\<close>

theorem cr_alone_does_not_end_a_line:
  "map strip_line (iter_lines (''a'' @ [CR] @ ''b'' @ [LF])) = [Inr (''a'' @ [CR] @ ''b'')] \<and>
   map strip_line (iter_lines (''a'' @ [CR] @ ''b'' @ [LF])) \<noteq> [Inr ''a'', Inr ''b'']"
  by code_simp

text \<open>
  C8 (amended). The stream is split at LF only: for lines of well-formed UTF-8 without LF,
  each followed by LF, the loop sees those lines, every one decoded and without its
  trailing CRs. So LF and CRLF end a line, and a CR that no LF follows stays inside its
  line.
\<close>

theorem lines_end_at_LF_only:
  assumes "\<forall>l \<in> set ls. LF \<notin> set l \<and> valid_utf8 l"
  shows "map strip_line (iter_lines (concat (map (\<lambda>l. l @ [LF]) ls)))
           = map (\<lambda>l. Inr (rstrip CR l)) ls"
  using assms
proof (induction ls)
  case Nil
  then show ?case by simp
next
  case (Cons l ls)
  then have l: "LF \<notin> set l" "valid_utf8 l" by simp_all
  then have "iter_lines (concat (map (\<lambda>l. l @ [LF]) (l # ls)))
      = (l @ [LF]) # iter_lines (concat (map (\<lambda>l. l @ [LF]) ls))"
    using iter_lines_line [of l "concat (map (\<lambda>l. l @ [LF]) ls)"] by simp
  then show ?case
    using Cons l by (simp add: strip_line_line)
qed

theorem lines_end_at_LF_only_witness:
  "LF \<notin> set (''a'' @ [CR]) \<and> valid_utf8 (''a'' @ [CR]) \<and>
   LF \<notin> set [CHR 0xC3, CHR 0xA9] \<and> valid_utf8 [CHR 0xC3, CHR 0xA9] \<and>
   LF \<notin> set (''c'' @ [CR] @ ''d'') \<and> valid_utf8 (''c'' @ [CR] @ ''d'') \<and>
   map strip_line (iter_lines (concat (map (\<lambda>l. l @ [LF])
       [''a'' @ [CR], [CHR 0xC3, CHR 0xA9], ''c'' @ [CR] @ ''d''])))
     = [Inr ''a'', Inr [CHR 0xC3, CHR 0xA9], Inr (''c'' @ [CR] @ ''d'')]"
proof -
  have a: "LF \<notin> set (''a'' @ [CR])" "LF \<notin> set [CHR 0xC3, CHR 0xA9]"
    "LF \<notin> set (''c'' @ [CR] @ ''d'')"
    by (simp_all add: LF_def CR_def)
  have b: "valid_utf8 (''a'' @ [CR])" "valid_utf8 [CHR 0xC3, CHR 0xA9]"
    "valid_utf8 (''c'' @ [CR] @ ''d'')"
    by code_simp+
  have c: "map (\<lambda>l. Inr (rstrip CR l)) [''a'' @ [CR], [CHR 0xC3, CHR 0xA9], ''c'' @ [CR] @ ''d'']
      = [Inr ''a'', Inr [CHR 0xC3, CHR 0xA9], Inr (''c'' @ [CR] @ ''d'') :: error + string]"
    by (simp add: rstrip_def CR_def)
  have h: "\<forall>l \<in> set [''a'' @ [CR], [CHR 0xC3, CHR 0xA9], ''c'' @ [CR] @ ''d''].
             LF \<notin> set l \<and> valid_utf8 l"
    using a b by simp
  from lines_end_at_LF_only [OF h] c
  have "map strip_line (iter_lines (concat (map (\<lambda>l. l @ [LF])
       [''a'' @ [CR], [CHR 0xC3, CHR 0xA9], ''c'' @ [CR] @ ''d''])))
     = [Inr ''a'', Inr [CHR 0xC3, CHR 0xA9], Inr (''c'' @ [CR] @ ''d'')]"
    by (rule trans)
  with a b show ?thesis by blast
qed

subsection \<open>Fields\<close>

text \<open>
  C4 (the code strips every leading space). On the stream \<^verbatim>\<open>data:  x: y\n\n\<close>, with two
  spaces after the first colon, the line is split at the first colon only and the event
  carries \<^verbatim>\<open>x: y\<close>: both spaces are gone, where removing one leaves one.
\<close>

theorem field_value_loses_all_leading_spaces:
  "fst (anext (snd (connect
      (Inr \<lparr>status = 200, real_url_origin = ''http://h'', content = ''data:  x: y'' @ [LF, LF]\<rparr>)
      (init ''http://h/e'' None 5000000 None []))))
   = Inr (Some \<lparr>type = None, message = [], data = ''x: y'', origin = Some ''http://h'',
                 last_event_id = []\<rparr>)"
  by code_simp

text \<open>What the field \<^verbatim>\<open>retry\<close> does when all goes well, and when \<^verbatim>\<open>int\<close> refuses the
  value.\<close>

lemma retry_in_range:
  assumes "py_int field_value = Inr n"
    and "timedelta_min \<le> n * 1000" and "n * 1000 \<le> timedelta_max"
  shows "process_field ''retry'' field_value s = Inr (s\<lparr>self_reconnection_time := n * 1000\<rparr>)"
  using assms by (simp add: process_field_def timedelta_milliseconds_def)

lemma retry_not_an_integer:
  assumes "py_int field_value = Inl ValueError"
  shows "process_field ''retry'' field_value s = Inr s"
  using assms by (simp add: process_field_def)

text \<open>The value \<^verbatim>\<open>100000000000000000000\<close>: an integer for \<^verbatim>\<open>int\<close>, too many
  milliseconds for a \<^verbatim>\<open>timedelta\<close>.\<close>

lemma py_int_huge: "py_int ''100000000000000000000'' = Inr 100000000000000000000"
  by code_simp

lemma timedelta_milliseconds_huge:
  "timedelta_milliseconds 100000000000000000000 = Inl OverflowError"
  by (simp add: timedelta_milliseconds_def timedelta_min_def timedelta_max_def)

lemma process_field_huge:
  "process_field ''retry'' ''100000000000000000000'' s = Inl OverflowError"
  by (simp add: process_field_def py_int_huge timedelta_milliseconds_huge)

lemma retry_line_huge:
  "process_lines ((''retry: 100000000000000000000'' @ [LF]) # rest) s = (Inl OverflowError, rest, s)"
proof -
  have "LF \<notin> set ''retry: 100000000000000000000''"
    by (simp add: LF_def)
  moreover have "valid_utf8 ''retry: 100000000000000000000''"
    by code_simp
  ultimately have "strip_line (''retry: 100000000000000000000'' @ [LF])
      = Inr (rstrip CR ''retry: 100000000000000000000'')"
    by (rule strip_line_line)
  also have "rstrip CR ''retry: 100000000000000000000'' = ''retry: 100000000000000000000''"
    by (simp add: rstrip_def CR_def)
  finally have sl: "strip_line (''retry: 100000000000000000000'' @ [LF])
      = Inr ''retry: 100000000000000000000''" .
  have sp: "split1 (CHR '':'') ''retry: 100000000000000000000''
      = [''retry'', '' 100000000000000000000'']"
    by (simp add: split1_def)
  have ls: "lstrip (CHR '' '') '' 100000000000000000000'' = ''100000000000000000000''"
    by (simp add: lstrip_def)
  show ?thesis
    by (subst process_lines.simps, subst sl) (simp add: sp ls process_field_huge)
qed

text \<open>
  C7 (an exception escapes). The field \<^verbatim>\<open>retry\<close> with the value
  \<^verbatim>\<open>100000000000000000000\<close>, which \<^verbatim>\<open>int\<close> parses: \<^verbatim>\<open>timedelta\<close> raises OverflowError,
  which \<^verbatim>\<open>except ValueError\<close> does not catch, in every state, and the loop of
  \<^verbatim>\<open>__anext__\<close> ends with it at the line \<^verbatim>\<open>retry: 100000000000000000000\<close>.
\<close>

theorem retry_out_of_range_raises_OverflowError:
  "py_int ''100000000000000000000'' = Inr 100000000000000000000 \<and>
   process_field ''retry'' ''100000000000000000000'' s = Inl OverflowError \<and>
   process_lines ((''retry: 100000000000000000000'' @ [LF]) # rest) s = (Inl OverflowError, rest, s)"
  by (simp only: py_int_huge process_field_huge retry_line_huge simp_thms)

subsection \<open>Whole events\<close>

text \<open>
  C2 (the data loses an empty last value). The stream of the specification,
  \<^verbatim>\<open>event: foo\ndata: a\ndata: b\nid: 42\n\n\<close>, gives the event it names. With the
  second data field empty, \<^verbatim>\<open>event: foo\ndata: a\ndata:\nid: 42\n\n\<close>, the values
  \<^verbatim>\<open>a\<close> and the empty string joined by a newline are \<^verbatim>\<open>a\n\<close>, and the event carries
  \<^verbatim>\<open>a\<close>.
\<close>

theorem single_event_data_loses_empty_last_value:
  "fst (anext (snd (connect
      (Inr \<lparr>status = 200, real_url_origin = ''http://h'',
             content = ''event: foo'' @ [LF] @ ''data: a'' @ [LF] @ ''data: b'' @ [LF]
                       @ ''id: 42'' @ [LF, LF]\<rparr>)
      (init ''http://h/e'' None 5000000 None []))))
   = Inr (Some \<lparr>type = Some ''foo'', message = ''foo'', data = ''a'' @ [LF] @ ''b'',
                 origin = Some ''http://h'', last_event_id = ''42''\<rparr>) \<and>
   fst (anext (snd (connect
      (Inr \<lparr>status = 200, real_url_origin = ''http://h'',
             content = ''event: foo'' @ [LF] @ ''data: a'' @ [LF] @ ''data:'' @ [LF]
                       @ ''id: 42'' @ [LF, LF]\<rparr>)
      (init ''http://h/e'' None 5000000 None []))))
   = Inr (Some \<lparr>type = Some ''foo'', message = ''foo'', data = ''a'',
                 origin = Some ''http://h'', last_event_id = ''42''\<rparr>)"
  by code_simp

subsection \<open>The rounds of the loop\<close>

text \<open>One round of the loop on a line: it raises, or returns the event of a dispatch, or goes
  on with the rest of the lines, after a dispatch without an event, after a comment, or
  after a field whose name is what stands before the first colon of the line.\<close>

lemma process_lines_Cons:
  assumes "process_lines (l # rest) s = (r, rest', s')"
  shows "(\<exists>e. r = Inl e \<and> rest' = rest \<and> s' = s) \<or>
         (\<exists>ev. dispatch_event s = (Some ev, s') \<and> r = Inr (Some ev) \<and> rest' = rest) \<or>
         (fst (dispatch_event s) = None \<and>
            process_lines rest (snd (dispatch_event s)) = (r, rest', s')) \<or>
         process_lines rest s = (r, rest', s') \<or>
         (\<exists>line v s''. strip_line l = Inr line \<and>
            process_field (takeWhile (\<lambda>c. c \<noteq> CHR '':'') line) v s = Inr s'' \<and>
            process_lines rest s'' = (r, rest', s'))"
proof (cases "strip_line l")
  case (Inl e)
  then have "r = Inl e \<and> rest' = rest \<and> s' = s" using assms by auto
  then show ?thesis by blast
next
  case (Inr line)
  show ?thesis
  proof (cases "line = []")
    case True
    then show ?thesis
      using assms Inr by (cases "dispatch_event s") (auto split: option.splits)
  next
    case nonempty: False
    show ?thesis
    proof (cases "hd line = CHR '':''")
      case True
      then show ?thesis using assms Inr nonempty by simp
    next
      case nocomment: False
      show ?thesis
      proof (cases "CHR '':'' \<in> set line")
        case True
        then have sp: "split1 (CHR '':'') line =
            [takeWhile (\<lambda>c. c \<noteq> CHR '':'') line, tl (dropWhile (\<lambda>c. c \<noteq> CHR '':'') line)]"
          by (simp add: split1_def)
        show ?thesis
        proof (cases "process_field (takeWhile (\<lambda>c. c \<noteq> CHR '':'') line)
                        (lstrip (CHR '' '') (tl (dropWhile (\<lambda>c. c \<noteq> CHR '':'') line))) s")
          case (Inl e)
          then show ?thesis using assms \<open>strip_line l = Inr line\<close> nonempty nocomment True
            by (auto simp: sp)
        next
          case field: (Inr s'')
          then have "process_lines rest s'' = (r, rest', s')"
            using assms \<open>strip_line l = Inr line\<close> nonempty nocomment True by (simp add: sp)
          with field \<open>strip_line l = Inr line\<close> show ?thesis by blast
        qed
      next
        case False
        then have name: "takeWhile (\<lambda>c. c \<noteq> CHR '':'') line = line"
          by (auto simp: takeWhile_eq_all_conv)
        show ?thesis
        proof (cases "process_field line [] s")
          case (Inl e)
          then show ?thesis using assms \<open>strip_line l = Inr line\<close> nonempty nocomment False
            by auto
        next
          case field: (Inr s'')
          then have "process_lines rest s'' = (r, rest', s')"
            using assms \<open>strip_line l = Inr line\<close> nonempty nocomment False by simp
          with field name \<open>strip_line l = Inr line\<close> show ?thesis by metis
        qed
      qed
    qed
  qed
qed

text \<open>Through lines none of which is an \<^verbatim>\<open>id\<close> field the id buffer stays, and an event
  that the loop returns carries it.\<close>

lemma process_lines_keeps_event_id:
  assumes "\<forall>l \<in> set ls. \<forall>line. strip_line l = Inr line \<longrightarrow>
             takeWhile (\<lambda>c. c \<noteq> CHR '':'') line \<noteq> ''id''"
    and "process_lines ls s = (r, rest, s')"
  shows "self_event_id s' = self_event_id s \<and>
         (\<forall>ev. r = Inr (Some ev) \<longrightarrow>
            last_event_id ev = self_event_id s \<and> self_last_event_id s' = self_event_id s)"
  using assms
proof (induction ls arbitrary: s)
  case Nil
  then show ?case by auto
next
  case (Cons l ls)
  have rest_ok: "\<forall>l \<in> set ls. \<forall>line. strip_line l = Inr line \<longrightarrow>
                   takeWhile (\<lambda>c. c \<noteq> CHR '':'') line \<noteq> ''id''"
    using Cons.prems(1) by simp
  from process_lines_Cons [OF Cons.prems(2)]
  consider (raise) e where "r = Inl e" "s' = s"
    | (event) ev where "dispatch_event s = (Some ev, s')" "r = Inr (Some ev)"
    | (blank) "process_lines ls (snd (dispatch_event s)) = (r, rest, s')"
    | (comment) "process_lines ls s = (r, rest, s')"
    | (field) line v s'' where "strip_line l = Inr line"
        "process_field (takeWhile (\<lambda>c. c \<noteq> CHR '':'') line) v s = Inr s''"
        "process_lines ls s'' = (r, rest, s')"
    by blast
  then show ?case
  proof cases
    case raise
    then show ?thesis by simp
  next
    case event
    then have "fst (dispatch_event s) = Some ev" "s' = snd (dispatch_event s)" by simp_all
    then show ?thesis
      using event(2) by (auto simp: fst_dispatch_event snd_dispatch_event split: if_splits)
  next
    case blank
    from Cons.IH [OF rest_ok blank] show ?thesis by (simp add: snd_dispatch_event)
  next
    case comment
    from Cons.IH [OF rest_ok comment] show ?thesis .
  next
    case field
    from Cons.prems(1) field(1) have "takeWhile (\<lambda>c. c \<noteq> CHR '':'') line \<noteq> ''id''" by simp
    then have "self_event_id s'' = self_event_id s"
      using field(2) by (rule process_field_keeps_event_id)
    with Cons.IH [OF rest_ok field(3)] show ?thesis by simp
  qed
qed

text \<open>
  C6. After every dispatch, whether or not it returns an event, the last event id is the
  id buffer, the type and data buffers are empty and the id buffer is as it was. An event
  that the dispatch returns carries that id; and when the loop goes on through lines none
  of which is an \<^verbatim>\<open>id\<close> field, however many, the next event it returns carries the same
  id, which is again the last event id and still the id buffer.
\<close>

theorem dispatch_event_commits_id_and_resets:
  "self_last_event_id (snd (dispatch_event s)) = self_event_id s \<and>
   self_event_type (snd (dispatch_event s)) = [] \<and>
   self_event_data (snd (dispatch_event s)) = [] \<and>
   self_event_id (snd (dispatch_event s)) = self_event_id s \<and>
   (fst (dispatch_event s) = Some ev \<longrightarrow> last_event_id ev = self_event_id s) \<and>
   ((\<forall>l \<in> set ls. \<forall>line. strip_line l = Inr line \<longrightarrow>
        takeWhile (\<lambda>c. c \<noteq> CHR '':'') line \<noteq> ''id'') \<and>
    process_lines ls (snd (dispatch_event s)) = (Inr (Some ev'), rest, s') \<longrightarrow>
      last_event_id ev' = self_event_id s \<and>
      self_last_event_id s' = self_event_id s \<and>
      self_event_id s' = self_event_id s)"
proof -
  have later: "last_event_id ev' = self_event_id s \<and>
      self_last_event_id s' = self_event_id s \<and> self_event_id s' = self_event_id s"
    if "\<forall>l \<in> set ls. \<forall>line. strip_line l = Inr line \<longrightarrow>
          takeWhile (\<lambda>c. c \<noteq> CHR '':'') line \<noteq> ''id''"
      and "process_lines ls (snd (dispatch_event s)) = (Inr (Some ev'), rest, s')"
    using process_lines_keeps_event_id [OF that] by (simp add: snd_dispatch_event)
  have first: "last_event_id ev = self_event_id s" if "fst (dispatch_event s) = Some ev"
    using that by (auto simp: fst_dispatch_event split: if_splits)
  from later first show ?thesis by (simp add: snd_dispatch_event)
qed

theorem dispatch_event_commits_id_and_resets_witness:
  "fst (dispatch_event ((init ''http://h/e'' None 5000000 None [])
        \<lparr>self_event_id := ''7'', self_event_data := ''a'' @ [LF]\<rparr>))
     = Some \<lparr>type = None, message = [], data = ''a'', origin = None, last_event_id = ''7''\<rparr> \<and>
   strip_line (''data: x'' @ [LF]) = Inr ''data: x'' \<and>
   takeWhile (\<lambda>c. c \<noteq> CHR '':'') ''data: x'' \<noteq> ''id'' \<and>
   strip_line [LF] = Inr [] \<and>
   fst (process_lines [''data: x'' @ [LF], [LF]]
     (snd (dispatch_event ((init ''http://h/e'' None 5000000 None [])
        \<lparr>self_event_id := ''7'', self_event_data := ''a'' @ [LF]\<rparr>))))
     = Inr (Some \<lparr>type = None, message = [], data = ''x'', origin = None, last_event_id = ''7''\<rparr>) \<and>
   last_event_id \<lparr>type = None, message = [], data = ''x'', origin = None, last_event_id = ''7''\<rparr>
     = self_event_id ((init ''http://h/e'' None 5000000 None [])
        \<lparr>self_event_id := ''7'', self_event_data := ''a'' @ [LF]\<rparr>)"
proof -
  let ?S = "(init ''http://h/e'' None 5000000 None [])
              \<lparr>self_event_id := ''7'', self_event_data := ''a'' @ [LF]\<rparr>"
  let ?E1 = "\<lparr>type = None, message = [], data = ''a'', origin = None, last_event_id = ''7''\<rparr>"
  let ?E2 = "\<lparr>type = None, message = [], data = ''x'', origin = None, last_event_id = ''7''\<rparr>"
  let ?LS = "[''data: x'' @ [LF], [LF]]"
  have a: "fst (dispatch_event ?S) = Some ?E1"
    by (simp add: fst_dispatch_event init_def rstrip_def LF_def)
  have b: "strip_line (''data: x'' @ [LF]) = Inr ''data: x''"
    by code_simp
  have c: "takeWhile (\<lambda>c. c \<noteq> CHR '':'') ''data: x'' \<noteq> ''id''"
    by simp
  have d: "strip_line [LF] = Inr []"
    by code_simp
  have h: "\<forall>l \<in> set ?LS. \<forall>line. strip_line l = Inr line \<longrightarrow>
             takeWhile (\<lambda>c. c \<noteq> CHR '':'') line \<noteq> ''id''"
  proof
    fix l assume "l \<in> set ?LS"
    then have "l = ''data: x'' @ [LF] \<or> l = [LF]" by simp
    then show "\<forall>line. strip_line l = Inr line \<longrightarrow> takeWhile (\<lambda>c. c \<noteq> CHR '':'') line \<noteq> ''id''"
      using b c d by auto
  qed
  have p: "fst (process_lines ?LS (snd (dispatch_event ?S))) = Inr (Some ?E2)"
    by code_simp
  then obtain rest s' where q: "process_lines ?LS (snd (dispatch_event ?S)) = (Inr (Some ?E2), rest, s')"
    by (metis fst_conv surj_pair)
  from dispatch_event_commits_id_and_resets [of ?S ?E1 ?LS ?E2 rest s'] h q
  have e: "last_event_id ?E2 = self_event_id ?S" by blast
  from a b c d p e show ?thesis by blast
qed

subsection \<open>The end of the stream\<close>

text \<open>No round of the loop touches the session, the ready state, the response or the keyword
  arguments, and the loop ends with \<^verbatim>\<open>None\<close> only when no line is left. So
  \<^verbatim>\<open>__anext__\<close> makes no request, and once it has returned \<^verbatim>\<open>None\<close> it does so at every
  later call.\<close>

lemma process_field_frame:
  assumes "process_field field_name field_value s = Inr s'"
  shows "self_session s' = self_session s \<and> self_ready_state s' = self_ready_state s \<and>
         self_response s' = self_response s \<and> self_kwargs s' = self_kwargs s"
proof (cases "field_name = ''retry''")
  case True
  then show ?thesis
    using assms by (auto simp: process_field_def split: sum.splits if_splits)
next
  case False
  then show ?thesis
    using assms by (auto simp: process_field_def split: if_splits)
qed

lemma process_lines_frame:
  "process_lines ls s = (r, rest, s') \<Longrightarrow>
     self_session s' = self_session s \<and> self_ready_state s' = self_ready_state s \<and>
     self_response s' = self_response s \<and> self_kwargs s' = self_kwargs s"
proof (induction ls arbitrary: s)
  case Nil
  then show ?case by simp
next
  case (Cons l ls)
  from process_lines_Cons [OF Cons.prems]
  consider (raise) "s' = s"
    | (event) "s' = snd (dispatch_event s)"
    | (blank) "process_lines ls (snd (dispatch_event s)) = (r, rest, s')"
    | (comment) "process_lines ls s = (r, rest, s')"
    | (field) n v s'' where "process_field n v s = Inr s''" "process_lines ls s'' = (r, rest, s')"
    by fastforce
  then show ?case
  proof cases
    case raise
    then show ?thesis by simp
  next
    case event
    then show ?thesis by (simp add: snd_dispatch_event)
  next
    case blank
    from Cons.IH [OF blank] show ?thesis by (simp add: snd_dispatch_event)
  next
    case comment
    from Cons.IH [OF comment] show ?thesis .
  next
    case field
    from Cons.IH [OF field(2)] process_field_frame [OF field(1)] show ?thesis by simp
  qed
qed

lemma process_lines_None_rest:
  "process_lines ls s = (Inr None, rest, s') \<Longrightarrow> rest = []"
proof (induction ls arbitrary: s)
  case Nil
  then show ?case by simp
next
  case (Cons l ls)
  from process_lines_Cons [OF Cons.prems] obtain s'' where
    "process_lines ls s'' = (Inr None, rest, s')"
    by auto
  then show ?case by (rule Cons.IH)
qed

lemma anext_at_eof:
  assumes "self_response s = Some r" and "content r = []"
  shows "anext s = (Inr None, s)"
proof -
  have "r\<lparr>content := []\<rparr> = r" using assms(2) by (cases r) simp
  moreover have "s\<lparr>self_response := Some r\<rparr> = s" using assms(1) by (cases s) simp
  ultimately show ?thesis using assms by (simp add: anext_def)
qed

lemma anext_frame:
  "self_session (snd (anext s)) = self_session s \<and>
   self_ready_state (snd (anext s)) = self_ready_state s \<and>
   self_kwargs (snd (anext s)) = self_kwargs s"
proof (cases "self_response s")
  case None
  then show ?thesis by (simp add: anext_def)
next
  case (Some resp)
  obtain r rest s' where p: "process_lines (iter_lines (content resp)) s = (r, rest, s')"
    by (cases "process_lines (iter_lines (content resp)) s") auto
  from process_lines_frame [OF p] Some p show ?thesis
    by (simp add: anext_def)
qed

lemma anext_None_again:
  assumes "fst (anext s) = Inr None"
  shows "anext (snd (anext s)) = (Inr None, snd (anext s))"
proof (cases "self_response s")
  case None
  then show ?thesis using assms by (simp add: anext_def)
next
  case (Some resp)
  obtain r rest s' where p: "process_lines (iter_lines (content resp)) s = (r, rest, s')"
    by (cases "process_lines (iter_lines (content resp)) s") auto
  have a: "anext s = (r, s'\<lparr>self_response := Some (resp\<lparr>content := concat rest\<rparr>)\<rparr>)"
    using Some p by (simp add: anext_def)
  with assms have "r = Inr None" by simp
  with p have "rest = []" using process_lines_None_rest by blast
  with a have "self_response (snd (anext s)) = Some (resp\<lparr>content := []\<rparr>)" by simp
  moreover have "content (resp\<lparr>content := []\<rparr>) = []" by simp
  ultimately show ?thesis by (rule anext_at_eof)
qed

text \<open>
  C1 (the code never reconnects). A stream that ends in the middle of an event, on an open
  connection: \<^verbatim>\<open>__anext__\<close> returns \<^verbatim>\<open>None\<close>, and so does the call after it; the state
  stays OPEN, not CLOSED, and the session has seen the one request of the first connect,
  no second one. A connect answered with status 404 makes its one request, sets no
  response and leaves the state CONNECTING; the \<^verbatim>\<open>__anext__\<close> after it raises ValueError,
  and the session has still seen one request.
\<close>

theorem eof_and_failed_connect_do_not_reconnect:
  "fst (anext (snd (connect
      (Inr \<lparr>status = 200, real_url_origin = ''http://h'', content = ''data: x'' @ [LF]\<rparr>)
      (init ''http://h/e'' None 5000000 None [])))) = Inr None \<and>
   fst (anext (snd (anext (snd (connect
      (Inr \<lparr>status = 200, real_url_origin = ''http://h'', content = ''data: x'' @ [LF]\<rparr>)
      (init ''http://h/e'' None 5000000 None [])))))) = Inr None \<and>
   self_ready_state (snd (anext (snd (anext (snd (connect
      (Inr \<lparr>status = 200, real_url_origin = ''http://h'', content = ''data: x'' @ [LF]\<rparr>)
      (init ''http://h/e'' None 5000000 None []))))))) = READY_STATE_OPEN \<and>
   READY_STATE_OPEN \<noteq> READY_STATE_CLOSED \<and>
   length (gets (self_session (snd (anext (snd (anext (snd (connect
      (Inr \<lparr>status = 200, real_url_origin = ''http://h'', content = ''data: x'' @ [LF]\<rparr>)
      (init ''http://h/e'' None 5000000 None []))))))))) = 1 \<and>
   self_response (snd (connect
      (Inr \<lparr>status = 404, real_url_origin = ''http://h'', content = []\<rparr>)
      (init ''http://h/e'' None 5000000 None []))) = None \<and>
   self_ready_state (snd (connect
      (Inr \<lparr>status = 404, real_url_origin = ''http://h'', content = []\<rparr>)
      (init ''http://h/e'' None 5000000 None []))) = READY_STATE_CONNECTING \<and>
   fst (anext (snd (connect
      (Inr \<lparr>status = 404, real_url_origin = ''http://h'', content = []\<rparr>)
      (init ''http://h/e'' None 5000000 None [])))) = Inl ValueError \<and>
   length (gets (self_session (snd (anext (snd (connect
      (Inr \<lparr>status = 404, real_url_origin = ''http://h'', content = []\<rparr>)
      (init ''http://h/e'' None 5000000 None []))))))) = 1"
  by code_simp

end
